theory Spec2Isabelle
  imports Main "HOL-Library.Word"
begin

section \<open>Machine types\<close>

text \<open>
  The model fixes the LP64 data model of the usual 64-bit build: \<open>size_t\<close> and pointers
  are 64 bits wide, \<open>int\<close> and \<open>uint32_t\<close> 32 bits. Word arithmetic wraps around as
  the unsigned C++ arithmetic does. A value of a trivial type \<open>T\<close> is given by its object
  representation, a list of \<open>sizeof(T)\<close> bytes; \<open>sizeof(T)\<close> itself is a parameter
  \<open>szT\<close> of every operation that depends on the type.
\<close>

type_synonym byte = "8 word"
type_synonym size_t = "64 word"
type_synonym uint32_t = "32 word"
type_synonym int_t = "32 word"

text \<open>
  \<open>out_of_range\<close> is the \<open>std::out_of_range\<close> that \<open>Context::operator+=\<close> and
  \<open>operator-=\<close> throw (\<open>__cpp_exceptions\<close> is defined in a default build).
  \<open>division_by_zero\<close> and \<open>invalid_range\<close> stand for the two places where the source
  runs into undefined behaviour on a well-typed input: an alignment of zero in
  \<open>getAlignedSize\<close> and a negative \<open>int\<close> length handed to \<open>std::copy\<close>.
  A call returns \<open>Inr\<close> of its result and the context it leaves, or \<open>Inl\<close> of the
  error that ended it; the context a thrown call leaves behind is not kept, and no
  statement below reads it.
\<close>

datatype error = out_of_range | division_by_zero | invalid_range

section \<open>PackBuffer::Context\<close>

text \<open>
  The fields of \<open>Context\<close> (\<open>buf_size_\<close>, \<open>p_msg_\<close>, \<open>msg_size_\<close>,
  \<open>alignment_\<close>; the trailing underscore is dropped). \<open>alignment\<close> holds
  \<open>static_cast<uint32_t>(alignment_)\<close>: the enumeration \<open>AlignMemory\<close> is declared in
  \<open>AlignMemory.hpp\<close>, so its value is a parameter here. \<open>memory\<close> is the address space that
  \<open>p_msg_\<close> points into, one byte per address.
\<close>

record Context =
  buf_size :: size_t
  p_msg :: size_t
  msg_size :: size_t
  alignment :: uint32_t
  memory :: "size_t \<Rightarrow> byte"

definition Context_init :: "(size_t \<Rightarrow> byte) \<Rightarrow> size_t \<Rightarrow> size_t \<Rightarrow> uint32_t \<Rightarrow> Context" where
  "Context_init mem pMsg sz al =
     \<lparr>buf_size = sz, p_msg = pMsg, msg_size = 0, alignment = al, memory = mem\<rparr>"

definition getAlignedSize :: "Context \<Rightarrow> size_t \<Rightarrow> error + uint32_t" where
  "getAlignedSize c n =
     (let kAlignedMemChunk = alignment c in
      if kAlignedMemChunk = 0 then Inl division_by_zero
      else
        (let kNumChunks = (ucast (n div ucast kAlignedMemChunk
                             + (if n mod ucast kAlignedMemChunk = 0 then 0 else 1)) :: uint32_t)
         in Inr (kNumChunks * kAlignedMemChunk)))"

text \<open>\<open>Context::operator+=\<close>: the bounds check reads the requested size, the update adds
  the aligned one.\<close>

definition operator_add_assign :: "Context \<Rightarrow> size_t \<Rightarrow> error + Context" where
  "operator_add_assign c n =
     (if buf_size c < msg_size c + n then Inl out_of_range
      else (case getAlignedSize c n of
              Inl e \<Rightarrow> Inl e
            | Inr kAlignedSize \<Rightarrow>
                Inr (c\<lparr>p_msg := p_msg c + ucast kAlignedSize,
                       msg_size := msg_size c + ucast kAlignedSize\<rparr>)))"

text \<open>\<open>Context::operator-=\<close>.\<close>

definition operator_sub_assign :: "Context \<Rightarrow> size_t \<Rightarrow> error + Context" where
  "operator_sub_assign c n =
     (if msg_size c < n then Inl out_of_range
      else (case getAlignedSize c n of
              Inl e \<Rightarrow> Inl e
            | Inr kAlignedSize \<Rightarrow>
                Inr (c\<lparr>p_msg := p_msg c - ucast kAlignedSize,
                       msg_size := msg_size c - ucast kAlignedSize\<rparr>)))"

definition buffer :: "Context \<Rightarrow> size_t" where
  "buffer c = p_msg c"

definition buffer_size :: "Context \<Rightarrow> size_t" where
  "buffer_size c = buf_size c - msg_size c"

text \<open>\<open>std::copy(first, first + length src, dst)\<close> into the context's memory.\<close>

definition std_copy :: "byte list \<Rightarrow> size_t \<Rightarrow> Context \<Rightarrow> Context" where
  "std_copy src dst c =
     c\<lparr>memory := (\<lambda>a. if unat (a - dst) < length src then src ! unat (a - dst)
                        else memory c a)\<rparr>"

section \<open>DelegatePackBuffer\<close>

text \<open>
  \<open>DelegatePackBuffer<T>\<close> is a class template with static members; a HOL value of type
  \<open>'a Delegate\<close> holds what an instance of the template provides for a type \<open>T\<close>
  modelled by \<open>'a\<close>: its \<open>put\<close>, its \<open>getTypeSize\<close>, and \<open>trivial = Some (sizeof(T))\<close>
  exactly when \<open>std::is_trivial<T>::value\<close> holds, which is what the \<open>enable_if\<close>
  overloads of the container specialisations dispatch on.
\<close>

record 'a Delegate =
  put :: "Context \<Rightarrow> 'a \<Rightarrow> error + bool \<times> Context"
  getTypeSize :: "'a \<Rightarrow> size_t"
  trivial :: "size_t option"

subsection \<open>The primary template: trivial types\<close>

definition getTypeSize_trivial :: "size_t \<Rightarrow> size_t" where
  "getTypeSize_trivial szT = szT"

definition put_trivial :: "size_t \<Rightarrow> Context \<Rightarrow> byte list \<Rightarrow> error + bool \<times> Context" where
  "put_trivial szT c t =
     (if getTypeSize_trivial szT \<le> buffer_size c then
        (let c1 = std_copy (take (unat szT) t) (buffer c) c in
         case operator_add_assign c1 szT of
           Inl e \<Rightarrow> Inl e
         | Inr c2 \<Rightarrow> Inr (True, c2))
      else Inr (False, c))"

definition Delegate_trivial :: "size_t \<Rightarrow> byte list Delegate" where
  "Delegate_trivial szT =
     \<lparr>put = put_trivial szT, getTypeSize = (\<lambda>_. getTypeSize_trivial szT), trivial = Some szT\<rparr>"

text \<open>The object representation of a \<open>size_t\<close> (little-endian), and
  \<open>DelegatePackBuffer<size_t>{}.put(_ctx, n)\<close>, the call that writes every length field.\<close>

definition bytes_of_size_t :: "size_t \<Rightarrow> byte list" where
  "bytes_of_size_t n =
     [ucast n, ucast (drop_bit 8 n), ucast (drop_bit 16 n), ucast (drop_bit 24 n),
      ucast (drop_bit 32 n), ucast (drop_bit 40 n), ucast (drop_bit 48 n), ucast (drop_bit 56 n)]"

definition sizeof_size_t :: size_t where
  "sizeof_size_t = 8"

definition put_size_t :: "Context \<Rightarrow> size_t \<Rightarrow> error + bool \<times> Context" where
  "put_size_t c n = put_trivial sizeof_size_t c (bytes_of_size_t n)"

text \<open>
  The array overload \<open>put(_ctx, const T (&_buffer)[dataLen])\<close> reads \<open>_ctx.size()\<close> and
  \<open>_ctx.data()\<close>. \<open>TBufferContext\<close> is a template parameter and \<open>Context\<close> declares
  neither member, so both are parameters \<open>ctx_size\<close> and \<open>ctx_data\<close> of the model; the
  pointer-and-length overload beside it reads \<open>buffer_size()\<close> and \<open>buffer()\<close> in the
  same two places. The array is the list of its elements' representations.
\<close>

definition getTypeSize_array :: "size_t \<Rightarrow> byte list list \<Rightarrow> size_t" where
  "getTypeSize_array szT arr = szT * of_nat (length arr)"

definition put_array ::
  "(Context \<Rightarrow> size_t) \<Rightarrow> (Context \<Rightarrow> size_t) \<Rightarrow> size_t \<Rightarrow> Context \<Rightarrow> byte list list
     \<Rightarrow> error + bool \<times> Context" where
  "put_array ctx_size ctx_data szT c arr =
     (let dataLen = (of_nat (length arr) :: size_t) in
      if getTypeSize_array szT arr \<le> ctx_size c then
        (case put_size_t c dataLen of
           Inl e \<Rightarrow> Inl e
         | Inr (_, c1) \<Rightarrow>
             (let c2 = std_copy (take (unat (szT * dataLen)) (concat arr)) (ctx_data c1) c1 in
              case operator_add_assign c2 (szT * dataLen) of
                Inl e \<Rightarrow> Inl e
              | Inr c3 \<Rightarrow> Inr (True, c3)))
      else Inr (False, c))"

text \<open>
  The pointer-and-length overload. A pointer is \<open>None\<close> when null, and otherwise \<open>Some\<close>
  of the bytes stored from the address it holds.
\<close>

definition getTypeSize_ptr :: "size_t \<Rightarrow> size_t \<Rightarrow> size_t" where
  "getTypeSize_ptr szT dataLen = sizeof_size_t + szT * dataLen"

definition put_ptr ::
  "size_t \<Rightarrow> Context \<Rightarrow> byte list option \<Rightarrow> size_t \<Rightarrow> error + bool \<times> Context" where
  "put_ptr szT c ptr dataLen =
     (case ptr of
        None \<Rightarrow> Inr (False, c)
      | Some bs \<Rightarrow>
          if getTypeSize_ptr szT dataLen \<le> buffer_size c then
            (case put_size_t c dataLen of
               Inl e \<Rightarrow> Inl e
             | Inr (_, c1) \<Rightarrow>
                 (let c2 = std_copy (take (unat (szT * dataLen)) bs) (buffer c1) c1 in
                  case operator_add_assign c2 (szT * dataLen) of
                    Inl e \<Rightarrow> Inl e
                  | Inr c3 \<Rightarrow> Inr (True, c3)))
          else Inr (False, c))"

subsection \<open>Strings\<close>

text \<open>
  A \<open>const char *\<close> is \<open>None\<close> when null and otherwise \<open>Some s\<close>, where the characters
  stored from the pointer on are \<open>s\<close> followed by a terminator; \<open>strlen\<close> stops at the
  first zero byte. Both string strategies keep the size in an \<open>int\<close>: the narrowing is
  \<open>ucast\<close>, and the \<open>int\<close> is sign-extended (\<open>scast\<close>) where it meets a \<open>size_t\<close>.
\<close>

definition strlen :: "byte list \<Rightarrow> size_t" where
  "strlen s = of_nat (length (takeWhile (\<lambda>b. b \<noteq> 0) s))"

definition getTypeSize_cstr :: "byte list \<Rightarrow> size_t" where
  "getTypeSize_cstr s = strlen s + 1"

definition put_int_len :: "Context \<Rightarrow> byte list \<Rightarrow> int_t \<Rightarrow> error + bool \<times> Context" where
  "put_int_len c chars kCStringLen =
     (if (scast kCStringLen :: size_t) \<le> buffer_size c then
        (if sint kCStringLen < 0 then Inl invalid_range
         else
           (let c1 = std_copy (take (unat kCStringLen) chars) (buffer c) c in
            case operator_add_assign c1 (scast kCStringLen) of
              Inl e \<Rightarrow> Inl e
            | Inr c2 \<Rightarrow> Inr (True, c2)))
      else Inr (False, c))"

definition put_cstr :: "Context \<Rightarrow> byte list option \<Rightarrow> error + bool \<times> Context" where
  "put_cstr c str =
     (case str of
        None \<Rightarrow> Inr (False, c)
      | Some s \<Rightarrow> put_int_len c (s @ [0]) (ucast (getTypeSize_cstr s)))"

definition getTypeSize_string :: "byte list \<Rightarrow> size_t" where
  "getTypeSize_string s = of_nat (length s) + 1"

definition put_string :: "Context \<Rightarrow> byte list \<Rightarrow> error + bool \<times> Context" where
  "put_string c s = put_int_len c (s @ [0]) (ucast (getTypeSize_string s))"

definition Delegate_string :: "byte list Delegate" where
  "Delegate_string = \<lparr>put = put_string, getTypeSize = getTypeSize_string, trivial = None\<rparr>"

subsection \<open>Containers\<close>

text \<open>
  A container is the list of its elements in iteration order. The two \<open>getTypeSize\<close>
  overloads of \<open>std::vector\<close>, \<open>std::list\<close>, \<open>std::set\<close> and \<open>std::unordered_set\<close>
  are the same text four times: the closed form, enabled when the element type is
  trivial, and the loop, enabled otherwise. \<open>sizeof(_vec.size())\<close> is \<open>sizeof(size_t)\<close>.
\<close>

definition getTypeSize_closed :: "size_t \<Rightarrow> 'a list \<Rightarrow> size_t" where
  "getTypeSize_closed szT xs = sizeof_size_t + szT * of_nat (length xs)"

definition getTypeSize_loop :: "('a \<Rightarrow> size_t) \<Rightarrow> 'a list \<Rightarrow> size_t" where
  "getTypeSize_loop getTypeSizeT xs =
     fold (\<lambda>ve typeSize. typeSize + getTypeSizeT ve) xs sizeof_size_t"

definition getTypeSize_container :: "'a Delegate \<Rightarrow> 'a list \<Rightarrow> size_t" where
  "getTypeSize_container D xs =
     (case trivial D of
        Some szT \<Rightarrow> getTypeSize_closed szT xs
      | None \<Rightarrow> getTypeSize_loop (getTypeSize D) xs)"

text \<open>\<open>std::vector<T>\<close>: one raw \<open>std::copy\<close> of the elements, modelled for a trivial
  \<open>T\<close>, where copying the objects copies their representations.\<close>

definition put_vector :: "size_t \<Rightarrow> Context \<Rightarrow> byte list list \<Rightarrow> error + bool \<times> Context" where
  "put_vector szT c vec =
     (let n = (of_nat (length vec) :: size_t) in
      if 0 < length vec then
        (if getTypeSize_closed szT vec \<le> buffer_size c then
           (case put_size_t c n of
              Inl e \<Rightarrow> Inl e
            | Inr (_, c1) \<Rightarrow>
                (let c2 = std_copy (take (unat (n * szT)) (concat vec)) (buffer c1) c1 in
                 case operator_add_assign c2 (n * szT) of
                   Inl e \<Rightarrow> Inl e
                 | Inr c3 \<Rightarrow> Inr (True, c3)))
         else Inr (False, c))
      else Inr (False, c))"

text \<open>The loop \<open>for (auto& ve : _lst) DelegatePackBuffer<T>{}.put(_ctx, ve);\<close>: the
  result of each inner \<open>put\<close> is dropped, an exception leaves the loop.\<close>

fun put_each :: "'a Delegate \<Rightarrow> Context \<Rightarrow> 'a list \<Rightarrow> error + Context" where
  "put_each D c [] = Inr c"
| "put_each D c (ve # rest) =
     (case put D c ve of
        Inl e \<Rightarrow> Inl e
      | Inr (_, c1) \<Rightarrow> put_each D c1 rest)"

text \<open>\<open>put\<close> of \<open>std::list<T>\<close>, \<open>std::set<K>\<close> and \<open>std::unordered_set<K>\<close>, again the
  same text.\<close>

definition put_container :: "'a Delegate \<Rightarrow> Context \<Rightarrow> 'a list \<Rightarrow> error + bool \<times> Context" where
  "put_container D c xs =
     (if 0 < length xs then
        (if getTypeSize_container D xs \<le> buffer_size c then
           (case put_size_t c (of_nat (length xs)) of
              Inl e \<Rightarrow> Inl e
            | Inr (_, c1) \<Rightarrow>
                (case put_each D c1 xs of
                   Inl e \<Rightarrow> Inl e
                 | Inr c2 \<Rightarrow> Inr (True, c2)))
         else Inr (False, c))
      else Inr (False, c))"

definition Delegate_list :: "'a Delegate \<Rightarrow> 'a list Delegate" where
  "Delegate_list D =
     \<lparr>put = put_container D, getTypeSize = getTypeSize_container D, trivial = None\<rparr>"

definition Delegate_set :: "'a Delegate \<Rightarrow> 'a list Delegate" where
  "Delegate_set D =
     \<lparr>put = put_container D, getTypeSize = getTypeSize_container D, trivial = None\<rparr>"

definition Delegate_unordered_set :: "'a Delegate \<Rightarrow> 'a list Delegate" where
  "Delegate_unordered_set D =
     \<lparr>put = put_container D, getTypeSize = getTypeSize_container D, trivial = None\<rparr>"

text \<open>\<open>std::pair<K, V>\<close>.\<close>

definition getTypeSize_pair :: "'k Delegate \<Rightarrow> 'v Delegate \<Rightarrow> 'k \<times> 'v \<Rightarrow> size_t" where
  "getTypeSize_pair DK DV pr = getTypeSize DK (fst pr) + getTypeSize DV (snd pr)"

definition put_pair ::
  "'k Delegate \<Rightarrow> 'v Delegate \<Rightarrow> Context \<Rightarrow> 'k \<times> 'v \<Rightarrow> error + bool \<times> Context" where
  "put_pair DK DV c pr =
     (if getTypeSize_pair DK DV pr \<le> buffer_size c then
        (case put DK c (fst pr) of
           Inl e \<Rightarrow> Inl e
         | Inr (_, c1) \<Rightarrow>
             (case put DV c1 (snd pr) of
                Inl e \<Rightarrow> Inl e
              | Inr (_, c2) \<Rightarrow> Inr (True, c2)))
      else Inr (False, c))"

definition Delegate_pair :: "'k Delegate \<Rightarrow> 'v Delegate \<Rightarrow> ('k \<times> 'v) Delegate" where
  "Delegate_pair DK DV =
     \<lparr>put = put_pair DK DV, getTypeSize = getTypeSize_pair DK DV, trivial = None\<rparr>"

text \<open>
  \<open>std::map<K, V>\<close> and \<open>std::unordered_map<K, V>\<close>. The closed form is written for
  \<open>std::unordered_map\<close> in both specialisations, so for a \<open>std::map\<close> only the loop is
  a candidate, and \<open>put\<close> of a \<open>std::map\<close> is instantiable when \<open>K\<close> and \<open>V\<close> are
  not both trivial.
\<close>

definition getTypeSize_map_closed :: "size_t \<Rightarrow> size_t \<Rightarrow> ('k \<times> 'v) list \<Rightarrow> size_t" where
  "getTypeSize_map_closed szK szV mp = sizeof_size_t + (szK + szV) * of_nat (length mp)"

definition getTypeSize_map_loop ::
  "('k \<Rightarrow> size_t) \<Rightarrow> ('v \<Rightarrow> size_t) \<Rightarrow> ('k \<times> 'v) list \<Rightarrow> size_t" where
  "getTypeSize_map_loop getTypeSizeK getTypeSizeV mp =
     fold (\<lambda>ve typeSize. typeSize + getTypeSizeK (fst ve) + getTypeSizeV (snd ve)) mp
       sizeof_size_t"

definition getTypeSize_map :: "'k Delegate \<Rightarrow> 'v Delegate \<Rightarrow> ('k \<times> 'v) list \<Rightarrow> size_t" where
  "getTypeSize_map DK DV mp = getTypeSize_map_loop (getTypeSize DK) (getTypeSize DV) mp"

definition getTypeSize_unordered_map ::
  "'k Delegate \<Rightarrow> 'v Delegate \<Rightarrow> ('k \<times> 'v) list \<Rightarrow> size_t" where
  "getTypeSize_unordered_map DK DV mp =
     (case (trivial DK, trivial DV) of
        (Some szK, Some szV) \<Rightarrow> getTypeSize_map_closed szK szV mp
      | _ \<Rightarrow> getTypeSize_map_loop (getTypeSize DK) (getTypeSize DV) mp)"

fun put_entries ::
  "'k Delegate \<Rightarrow> 'v Delegate \<Rightarrow> Context \<Rightarrow> ('k \<times> 'v) list \<Rightarrow> error + Context" where
  "put_entries DK DV c [] = Inr c"
| "put_entries DK DV c (ve # rest) =
     (case put DK c (fst ve) of
        Inl e \<Rightarrow> Inl e
      | Inr (_, c1) \<Rightarrow>
          (case put DV c1 (snd ve) of
             Inl e \<Rightarrow> Inl e
           | Inr (_, c2) \<Rightarrow> put_entries DK DV c2 rest))"

definition put_map_with ::
  "(('k \<times> 'v) list \<Rightarrow> size_t) \<Rightarrow> 'k Delegate \<Rightarrow> 'v Delegate \<Rightarrow> Context \<Rightarrow> ('k \<times> 'v) list
     \<Rightarrow> error + bool \<times> Context" where
  "put_map_with getTypeSizeM DK DV c mp =
     (if 0 < length mp then
        (if getTypeSizeM mp \<le> buffer_size c then
           (case put_size_t c (of_nat (length mp)) of
              Inl e \<Rightarrow> Inl e
            | Inr (_, c1) \<Rightarrow>
                (case put_entries DK DV c1 mp of
                   Inl e \<Rightarrow> Inl e
                 | Inr c2 \<Rightarrow> Inr (True, c2)))
         else Inr (False, c))
      else Inr (False, c))"

definition put_map ::
  "'k Delegate \<Rightarrow> 'v Delegate \<Rightarrow> Context \<Rightarrow> ('k \<times> 'v) list \<Rightarrow> error + bool \<times> Context" where
  "put_map DK DV = put_map_with (getTypeSize_map DK DV) DK DV"

definition put_unordered_map ::
  "'k Delegate \<Rightarrow> 'v Delegate \<Rightarrow> Context \<Rightarrow> ('k \<times> 'v) list \<Rightarrow> error + bool \<times> Context" where
  "put_unordered_map DK DV = put_map_with (getTypeSize_unordered_map DK DV) DK DV"

section \<open>The PackBuffer facade\<close>

record PackBuffer =
  p_buf :: size_t
  ctx :: Context

text \<open>The constructor \<open>PackBuffer(_pMsg, size, _alignment)\<close> over the memory \<open>mem\<close>.\<close>

definition PackBuffer_init :: "(size_t \<Rightarrow> byte) \<Rightarrow> size_t \<Rightarrow> size_t \<Rightarrow> uint32_t \<Rightarrow> PackBuffer" where
  "PackBuffer_init mem pMsg sz al = \<lparr>p_buf = pMsg, ctx = Context_init mem pMsg sz al\<rparr>"

text \<open>
  \<open>PackBuffer::put\<close> runs a delegate's \<open>put\<close> on \<open>context_\<close>; \<open>on_ctx\<close> stores the
  context it leaves. \<open>PackBuffer_put_chars\<close> is \<open>put\<close> of a \<open>char *\<close> (the template
  \<open>put(const T &)\<close> at \<open>T = char *\<close>) and of a character array (the overload
  \<open>put(const char (&)[dataLen])\<close>): both run \<open>DelegatePackBuffer<char*>::put\<close>, and only
  the first can pass a null pointer. \<open>PackBuffer_put_ptr\<close> is \<open>put(const T *, size_t)\<close>.
\<close>

definition on_ctx :: "PackBuffer \<Rightarrow> error + bool \<times> Context \<Rightarrow> error + bool \<times> PackBuffer" where
  "on_ctx pb r = (case r of Inl e \<Rightarrow> Inl e | Inr (result, c) \<Rightarrow> Inr (result, pb\<lparr>ctx := c\<rparr>))"

definition PackBuffer_put :: "'a Delegate \<Rightarrow> PackBuffer \<Rightarrow> 'a \<Rightarrow> error + bool \<times> PackBuffer" where
  "PackBuffer_put packer pb t = on_ctx pb (put packer (ctx pb) t)"

definition PackBuffer_put_chars :: "PackBuffer \<Rightarrow> byte list option \<Rightarrow> error + bool \<times> PackBuffer" where
  "PackBuffer_put_chars pb str = on_ctx pb (put_cstr (ctx pb) str)"

definition PackBuffer_put_ptr ::
  "size_t \<Rightarrow> PackBuffer \<Rightarrow> byte list option \<Rightarrow> size_t \<Rightarrow> error + bool \<times> PackBuffer" where
  "PackBuffer_put_ptr szT pb ptr dataLen = on_ctx pb (put_ptr szT (ctx pb) ptr dataLen)"

text \<open>
  \<open>put(const T &)\<close> at \<open>T = const char *\<close>: \<open>GeneralType\<close> is
  \<open>remove_reference<remove_cv<T>>\<close>, and \<open>remove_cv\<close> removes a \<open>const\<close> of the pointer,
  not of the characters it points to, so \<open>GeneralType\<close> is \<open>const char *\<close>. The
  specialisation is declared for \<open>char *\<close> only; the delegate chosen is the primary
  template at a trivial type of \<open>sizeof(const char *)\<close>, 8 bytes, and the value packed is
  the pointer itself. The representation of a null pointer is eight zero bytes.
\<close>

definition Delegate_const_char_ptr :: "byte list Delegate" where
  "Delegate_const_char_ptr = Delegate_trivial 8"

definition null_pointer :: "byte list" where
  "null_pointer = [0, 0, 0, 0, 0, 0, 0, 0]"

definition reset :: "PackBuffer \<Rightarrow> error + PackBuffer" where
  "reset pb =
     (case operator_sub_assign (ctx pb) (msg_size (ctx pb)) of
        Inl e \<Rightarrow> Inl e
      | Inr c \<Rightarrow> Inr (pb\<lparr>ctx := c\<rparr>))"

definition getData :: "PackBuffer \<Rightarrow> size_t" where
  "getData pb = p_buf pb"

definition getDataSize :: "PackBuffer \<Rightarrow> size_t" where
  "getDataSize pb = msg_size (ctx pb)"

definition getBufferSize :: "PackBuffer \<Rightarrow> size_t" where
  "getBufferSize pb = buffer_size (ctx pb)"

section \<open>Observations and client programs\<close>


definition bytesWrittenBy :: "Context \<Rightarrow> error + bool \<times> Context \<Rightarrow> error + bool \<times> byte list" where
  "bytesWrittenBy c r =
     (case r of
        Inl e \<Rightarrow> Inl e
      | Inr (result, c') \<Rightarrow>
          Inr (result, map (\<lambda>i. memory c' (p_msg c + of_nat i))
                         [0..<unat (msg_size c' - msg_size c)]))"

text \<open>\<open>ceil(n / q)\<close> on natural numbers.\<close>

definition ceil_div :: "nat \<Rightarrow> nat \<Rightarrow> nat" where
  "ceil_div n q = (n + q - 1) div q"

text \<open>The offset \<open>msg_size_\<close> is a multiple of the alignment quantum.\<close>

definition offset_aligned :: "Context \<Rightarrow> bool" where
  "offset_aligned c = (unat (alignment c) dvd unat (msg_size c))"

text \<open>A memory block filled with zero bytes, for concrete runs.\<close>

definition zero_memory :: "size_t \<Rightarrow> byte" where
  "zero_memory a = 0"

text \<open>A client program is a list of calls on one \<open>PackBuffer\<close>; an exception ends it.\<close>

datatype call =
    Put_trivial size_t "byte list"
  | Put_chars "byte list option"
  | Put_string "byte list"
  | Put_ptr size_t "byte list option" size_t
  | Reset

definition drop_result :: "error + bool \<times> PackBuffer \<Rightarrow> error + PackBuffer" where
  "drop_result r = (case r of Inl e \<Rightarrow> Inl e | Inr (_, pb) \<Rightarrow> Inr pb)"

fun step :: "PackBuffer \<Rightarrow> call \<Rightarrow> error + PackBuffer" where
  "step pb (Put_trivial szT t) = drop_result (PackBuffer_put (Delegate_trivial szT) pb t)"
| "step pb (Put_chars str) = drop_result (PackBuffer_put_chars pb str)"
| "step pb (Put_string s) = drop_result (PackBuffer_put Delegate_string pb s)"
| "step pb (Put_ptr szT ptr dataLen) = drop_result (PackBuffer_put_ptr szT pb ptr dataLen)"
| "step pb Reset = reset pb"

fun run :: "PackBuffer \<Rightarrow> call list \<Rightarrow> error + PackBuffer" where
  "run pb [] = Inr pb"
| "run pb (x # xs) = (case step pb x of Inl e \<Rightarrow> Inl e | Inr pb' \<Rightarrow> run pb' xs)"

section \<open>Unfolding rules\<close>

lemmas Context_defs =
  getAlignedSize_def operator_add_assign_def operator_sub_assign_def buffer_def
  buffer_size_def std_copy_def Context_init_def

lemmas put_defs =
  put_trivial_def getTypeSize_trivial_def Delegate_trivial_def put_size_t_def
  sizeof_size_t_def put_int_len_def put_cstr_def getTypeSize_cstr_def strlen_def
  put_string_def getTypeSize_string_def Delegate_string_def

lemmas PackBuffer_defs =
  PackBuffer_init_def on_ctx_def PackBuffer_put_def PackBuffer_put_chars_def
  PackBuffer_put_ptr_def reset_def getDataSize_def getBufferSize_def

section \<open>The scenario of the specification\<close>

text \<open>
  C8. On a buffer of capacity 16 with alignment quantum 4: \<open>put\<close> of the \<open>int32\<close> 7
  succeeds and \<open>getDataSize()\<close> is 4; \<open>put\<close> of the \<open>int32\<close> 9 succeeds and
  \<open>getDataSize()\<close> is 8; \<open>put("hello")\<close>, six bytes with the terminator, succeeds and
  \<open>getDataSize()\<close> is 16; a further \<open>put\<close> of any \<open>int32\<close> \<open>t\<close> fails and leaves the
  buffer as it was, \<open>getDataSize()\<close> still 16. The memory \<open>m\<close> under the buffer is
  arbitrary.
\<close>

theorem scenario_capacity_16:
  "\<exists>pb1 pb2 pb3.
     PackBuffer_put (Delegate_trivial 4) (PackBuffer_init m 0 16 4) [7, 0, 0, 0] = Inr (True, pb1) \<and>
     getDataSize pb1 = 4 \<and>
     PackBuffer_put (Delegate_trivial 4) pb1 [9, 0, 0, 0] = Inr (True, pb2) \<and>
     getDataSize pb2 = 8 \<and>
     PackBuffer_put_chars pb2 (Some [104, 101, 108, 108, 111]) = Inr (True, pb3) \<and>
     getDataSize pb3 = 16 \<and>
     PackBuffer_put (Delegate_trivial 4) pb3 t = Inr (False, pb3) \<and>
     getDataSize pb3 = 16"
  by (simp add: Context_defs put_defs PackBuffer_defs)

section \<open>Empty containers and null pointers\<close>

text \<open>
  C5. \<open>put\<close> of an empty sequence (\<open>std::vector\<close>, \<open>std::list\<close>), set (\<open>std::set\<close>,
  \<open>std::unordered_set\<close>) or map (\<open>std::map\<close>, \<open>std::unordered_map\<close>) returns failure and
  leaves the context as it was: the cursor has not moved and no byte of the memory has
  changed, so not even a zero count is written. This holds for every element strategy.
\<close>

theorem put_empty_container:
  "put_vector szT c [] = Inr (False, c) \<and>
   put (Delegate_list D) c [] = Inr (False, c) \<and>
   put (Delegate_set D) c [] = Inr (False, c) \<and>
   put (Delegate_unordered_set D) c [] = Inr (False, c) \<and>
   put_map DK DV c [] = Inr (False, c) \<and>
   put_unordered_map DK DV c [] = Inr (False, c) \<and>
   bytesWrittenBy c (put_vector szT c []) = Inr (False, []) \<and>
   bytesWrittenBy c (put (Delegate_list D) c []) = Inr (False, []) \<and>
   bytesWrittenBy c (put_map DK DV c []) = Inr (False, [])"
  by (simp add: put_vector_def put_container_def Delegate_list_def Delegate_set_def
      Delegate_unordered_set_def put_map_def put_unordered_map_def put_map_with_def
      bytesWrittenBy_def)

text \<open>
  The two null checks at run time. For every length \<open>n\<close> and every element size,
  \<open>put\<close> with a null data pointer returns failure and leaves the context, and so the
  buffer behind the facade, as it was; \<open>put\<close> of a null \<open>char *\<close>, which runs
  \<open>DelegatePackBuffer<char*>::put\<close>, does the same. (The deleted overload
  \<open>put(nullptr_t)\<close> is a matter of overload resolution and has no counterpart in the
  model.)
\<close>

lemma put_null_pointer:
  "put_ptr szT c None n = Inr (False, c) \<and>
   put_cstr c None = Inr (False, c) \<and>
   PackBuffer_put_ptr szT pb None n = Inr (False, pb) \<and>
   PackBuffer_put_chars pb None = Inr (False, pb)"
  by (simp add: put_ptr_def put_cstr_def PackBuffer_put_ptr_def PackBuffer_put_chars_def
      on_ctx_def)

section \<open>Soft failure leaves the buffer alone\<close>

lemma put_trivial_False: "put_trivial szT c t = Inr (False, c') \<Longrightarrow> c' = c"
  by (simp add: put_trivial_def Let_def split: if_splits sum.splits)

lemma put_array_False: "put_array ctx_size ctx_data szT c arr = Inr (False, c') \<Longrightarrow> c' = c"
  by (simp add: put_array_def Let_def split: if_splits sum.splits prod.splits)

lemma put_ptr_False: "put_ptr szT c ptr n = Inr (False, c') \<Longrightarrow> c' = c"
  by (simp add: put_ptr_def Let_def split: if_splits sum.splits prod.splits option.splits)

lemma put_int_len_False: "put_int_len c chars k = Inr (False, c') \<Longrightarrow> c' = c"
  by (simp add: put_int_len_def Let_def split: if_splits sum.splits)

lemma put_cstr_False: "put_cstr c str = Inr (False, c') \<Longrightarrow> c' = c"
  by (auto simp add: put_cstr_def split: option.splits dest: put_int_len_False)

lemma put_string_False: "put_string c s = Inr (False, c') \<Longrightarrow> c' = c"
  by (auto simp add: put_string_def dest: put_int_len_False)

lemma put_vector_False: "put_vector szT c vec = Inr (False, c') \<Longrightarrow> c' = c"
  by (simp add: put_vector_def Let_def split: if_splits sum.splits prod.splits)

lemma put_container_False: "put_container D c xs = Inr (False, c') \<Longrightarrow> c' = c"
  by (simp add: put_container_def split: if_splits sum.splits prod.splits)

lemma put_pair_False: "put_pair DK DV c pr = Inr (False, c') \<Longrightarrow> c' = c"
  by (simp add: put_pair_def split: if_splits sum.splits prod.splits)

lemma put_map_with_False: "put_map_with g DK DV c mp = Inr (False, c') \<Longrightarrow> c' = c"
  by (simp add: put_map_with_def split: if_splits sum.splits prod.splits)

text \<open>
  C2. Whenever a \<open>put\<close> returns failure, the context it leaves is the context it was
  given: \<open>msg_size_\<close> (\<open>getDataSize()\<close>), the remaining capacity (\<open>getBufferSize()\<close>),
  the write position and every byte of the memory are as before the call. This holds
  for each strategy: trivial values, arrays, pointer with length, C strings,
  \<open>std::string\<close>, \<open>std::vector\<close>, the \<open>std::list\<close>, \<open>std::set\<close> and
  \<open>std::unordered_set\<close> strategy over any element strategy \<open>D\<close>, \<open>std::pair\<close>, and
  \<open>std::map\<close> and \<open>std::unordered_map\<close> over any key and value strategies. A \<open>put\<close>
  whose computed size exceeds the remaining capacity is one way to return failure.
\<close>

theorem put_failure_leaves_context:
  "(put_trivial szT c t = Inr (False, c1) \<longrightarrow> c1 = c) \<and>
   (put_array ctx_size ctx_data szT c arr = Inr (False, c2) \<longrightarrow> c2 = c) \<and>
   (put_ptr szT c ptr n = Inr (False, c3) \<longrightarrow> c3 = c) \<and>
   (put_cstr c str = Inr (False, c4) \<longrightarrow> c4 = c) \<and>
   (put_string c s = Inr (False, c5) \<longrightarrow> c5 = c) \<and>
   (put_vector szT c vec = Inr (False, c6) \<longrightarrow> c6 = c) \<and>
   (put_container D c xs = Inr (False, c7) \<longrightarrow> c7 = c) \<and>
   (put_pair DK DV c pr = Inr (False, c8) \<longrightarrow> c8 = c) \<and>
   (put_map DK DV c mp = Inr (False, c9) \<longrightarrow> c9 = c) \<and>
   (put_unordered_map DK DV c mp = Inr (False, c10) \<longrightarrow> c10 = c)"
proof (intro conjI impI)
  show "put_trivial szT c t = Inr (False, c1) \<Longrightarrow> c1 = c" by (rule put_trivial_False)
  show "put_array ctx_size ctx_data szT c arr = Inr (False, c2) \<Longrightarrow> c2 = c"
    by (rule put_array_False)
  show "put_ptr szT c ptr n = Inr (False, c3) \<Longrightarrow> c3 = c" by (rule put_ptr_False)
  show "put_cstr c str = Inr (False, c4) \<Longrightarrow> c4 = c" by (rule put_cstr_False)
  show "put_string c s = Inr (False, c5) \<Longrightarrow> c5 = c" by (rule put_string_False)
  show "put_vector szT c vec = Inr (False, c6) \<Longrightarrow> c6 = c" by (rule put_vector_False)
  show "put_container D c xs = Inr (False, c7) \<Longrightarrow> c7 = c" by (rule put_container_False)
  show "put_pair DK DV c pr = Inr (False, c8) \<Longrightarrow> c8 = c" by (rule put_pair_False)
  show "put_map DK DV c mp = Inr (False, c9) \<Longrightarrow> c9 = c"
    unfolding put_map_def by (rule put_map_with_False)
  show "put_unordered_map DK DV c mp = Inr (False, c10) \<Longrightarrow> c10 = c"
    unfolding put_unordered_map_def by (rule put_map_with_False)
qed

text \<open>
  The theorem at a buffer of capacity 2 with quantum 4: an \<open>int32\<close> needs 4 bytes and a
  list of one \<open>int32\<close> needs 12, both more than the 2 that remain, and both calls return
  failure with the context they were given.
\<close>

theorem put_failure_leaves_context_witness:
  "put_trivial 4 (Context_init zero_memory 0 2 4) [7, 0, 0, 0]
     = Inr (False, Context_init zero_memory 0 2 4) \<and>
   getTypeSize_trivial 4 = 4 \<and> buffer_size (Context_init zero_memory 0 2 4) = 2 \<and>
   put_container (Delegate_trivial 4) (Context_init zero_memory 0 2 4) [[7, 0, 0, 0]]
     = Inr (False, Context_init zero_memory 0 2 4) \<and>
   getTypeSize_container (Delegate_trivial 4) [[7, 0, 0, 0]] = 12"
  using put_failure_leaves_context
    [of 4 "Context_init zero_memory 0 2 4" "[7, 0, 0, 0]" "Context_init zero_memory 0 2 4"]
  by (simp add: Context_defs put_defs put_container_def getTypeSize_container_def
      getTypeSize_closed_def)

section \<open>The two size computations agree\<close>

lemma fold_add_const:
  "fold (\<lambda>ve typeSize. typeSize + (k::size_t)) xs acc = acc + k * of_nat (length xs)"
  by (induction xs arbitrary: acc) (simp_all add: algebra_simps)

lemma fold_add_two_consts:
  "fold (\<lambda>ve typeSize. typeSize + (k::size_t) + v) xs acc = acc + (k + v) * of_nat (length xs)"
  by (induction xs arbitrary: acc) (simp_all add: algebra_simps)

text \<open>
  C7. For a container whose element type is trivial, of size \<open>szT\<close>, the closed form
  \<open>sizeof(count) + sizeof(T) * n\<close> is equal to what the loop computes when it adds the
  \<open>getTypeSize\<close> of every element, which for a trivial type is \<open>sizeof(T)\<close>; for a map
  with trivial key and value types the closed form \<open>sizeof(count) + (sizeof(K) +
  sizeof(V)) * n\<close> is equal to the loop over the entries. The equality is one of
  \<open>size_t\<close> values, so it holds with the wrap-around of both computations.
\<close>

theorem getTypeSize_closed_eq_loop:
  "getTypeSize_closed szT xs = getTypeSize_loop (getTypeSize (Delegate_trivial szT)) xs \<and>
   getTypeSize_map_closed szK szV mp =
     getTypeSize_map_loop (getTypeSize (Delegate_trivial szK))
       (getTypeSize (Delegate_trivial szV)) mp"
  by (simp add: getTypeSize_closed_def getTypeSize_loop_def getTypeSize_map_closed_def
      getTypeSize_map_loop_def Delegate_trivial_def getTypeSize_trivial_def
      fold_add_const fold_add_two_consts)

section \<open>Alignment rounding\<close>

lemma ceil_div_alt:
  assumes q: "0 < q"
  shows "ceil_div n q = n div q + (if n mod q = 0 then 0 else 1)"
proof -
  have "n + q - 1 = (n mod q + q - 1) + q * (n div q)"
    using q by simp
  then have "(n + q - 1) div q = ((n mod q + q - 1) + q * (n div q)) div q"
    by simp
  also have "\<dots> = (n mod q + q - 1) div q + n div q"
    using q by (simp only: div_mult_self2)
  finally have step: "(n + q - 1) div q = (n mod q + q - 1) div q + n div q" .
  have "(n mod q + q - 1) div q = (if n mod q = 0 then 0 else 1)"
  proof (cases "n mod q = 0")
    case True
    then show ?thesis using q by simp
  next
    case False
    have "n mod q < q" using q by simp
    with False have "(n mod q + q - 1) div q = 1"
      by (intro div_nat_eqI) simp_all
    with False show ?thesis by simp
  qed
  with step show ?thesis by (simp add: ceil_div_def)
qed

lemma ceil_div_bounds:
  assumes q: "0 < q"
  shows "n \<le> ceil_div n q * q \<and> ceil_div n q * q < n + q"
proof -
  have n: "n = n div q * q + n mod q" by simp
  have r: "n mod q < q" using q by simp
  show ?thesis
  proof (cases "n mod q = 0")
    case True
    with n q show ?thesis by (simp add: ceil_div_alt)
  next
    case False
    have "ceil_div n q * q = n div q * q + q"
      using False q by (simp add: ceil_div_alt algebra_simps)
    with n r False show ?thesis by linarith
  qed
qed

text \<open>\<open>getAlignedSize\<close> is \<open>ceil(n / q) * q\<close> as long as that stays below \<open>2 ^ 32\<close>.\<close>

lemma getAlignedSize_unat:
  assumes q: "alignment c \<noteq> 0"
    and bound: "unat n + unat (alignment c) \<le> 2 ^ 32"
    and a: "getAlignedSize c n = Inr a"
  shows "unat a = ceil_div (unat n) (unat (alignment c)) * unat (alignment c)"
proof -
  define Q where "Q = unat (alignment c)"
  define N where "N = unat n"
  have Qpos: "0 < Q" using q by (simp add: Q_def unat_gt_0)
  have q64: "unat (ucast (alignment c) :: size_t) = Q"
    by (simp add: Q_def unsigned_ucast_eq take_bit_nat_eq_self unsigned_less[THEN less_trans])
  have dv: "unat (n div ucast (alignment c)) = N div Q"
    by (simp add: unat_div q64 N_def)
  have md: "(n mod ucast (alignment c) = 0) = (N mod Q = 0)"
    by (simp add: unat_eq_0[symmetric] unat_mod q64 N_def del: unat_eq_0 unat_0_iff)
  have cb: "N \<le> ceil_div N Q * Q" "ceil_div N Q * Q < N + Q"
    using ceil_div_bounds[OF Qpos, of N] by simp_all
  have Nb: "N + Q \<le> 2 ^ 32" using bound by (simp add: N_def Q_def)
  have cdQ: "ceil_div N Q * Q < 2 ^ 32" using cb Nb by linarith
  have cd: "ceil_div N Q < 2 ^ 32"
  proof -
    have "ceil_div N Q \<le> ceil_div N Q * Q" using Qpos by simp
    with cdQ show ?thesis by linarith
  qed
  define k64 where
    "k64 = n div ucast (alignment c) + (if n mod ucast (alignment c) = 0 then 0 else (1::size_t))"
  have k64: "unat k64 = ceil_div N Q"
  proof -
    have "unat (if n mod ucast (alignment c) = 0 then 0 else (1::size_t))
            = (if N mod Q = 0 then 0 else 1)"
      by (simp add: md)
    moreover have "N div Q + (if N mod Q = 0 then 0 else 1) < 2 ^ 64"
      using cd ceil_div_alt[OF Qpos, of N] by simp
    ultimately have "unat k64 = N div Q + (if N mod Q = 0 then 0 else 1)"
      unfolding k64_def
      using dv unat_add_lem[of "n div ucast (alignment c)"
          "(if n mod ucast (alignment c) = 0 then 0 else (1::size_t))"]
      by simp
    then show ?thesis by (simp add: ceil_div_alt[OF Qpos])
  qed
  have k32: "unat (ucast k64 :: uint32_t) = ceil_div N Q"
    using cd by (simp add: unsigned_ucast_eq take_bit_nat_eq_self k64)
  have "a = ucast k64 * alignment c"
    using a q by (simp add: getAlignedSize_def Let_def k64_def)
  moreover have "unat ((ucast k64 :: uint32_t) * alignment c) = ceil_div N Q * Q"
    using unat_mult_lem[of "ucast k64 :: uint32_t" "alignment c"] cdQ by (simp add: k32 Q_def)
  ultimately show ?thesis by (simp add: N_def Q_def)
qed

lemma unat_ucast_32_64: "unat (ucast (a :: uint32_t) :: size_t) = unat a"
  by (simp add: unsigned_ucast_eq take_bit_nat_eq_self unsigned_less[THEN less_trans])

lemma operator_add_assign_Inr:
  assumes "operator_add_assign c n = Inr c'"
  obtains a where "getAlignedSize c n = Inr a" "alignment c \<noteq> 0"
    "c' = c\<lparr>p_msg := p_msg c + ucast a, msg_size := msg_size c + ucast a\<rparr>"
    "\<not> buf_size c < msg_size c + n"
  using assms
  by (auto simp: operator_add_assign_def getAlignedSize_def Let_def split: if_splits sum.splits)





section \<open>Size and write\<close>




text \<open>What a successful \<open>put\<close> of one piece advances: the rounded size, which is a
  multiple of the quantum, not less than the size and less than the size plus the
  quantum.\<close>

lemma rounded_size_props:
  assumes "0 < q"
  shows "q dvd ceil_div n q * q \<and> n \<le> ceil_div n q * q \<and> ceil_div n q * q < n + q"
  using ceil_div_bounds[OF assms, of n] by simp










section \<open>What the cursor does keep\<close>

text \<open>
  Two facts that hold of the code and stand behind the failing inputs of the next
  section. First, for a quantum that divides \<open>2 ^ 32\<close> (a power of two), every
  operation of a client program leaves the offset a multiple of the quantum, with the
  wrap-around of \<open>uint32_t\<close> and \<open>size_t\<close> included; and \<open>reset()\<close> returns the
  offset to zero as long as the offset plus the quantum does not exceed \<open>2 ^ 32\<close>.
  Second, when the capacity is a multiple of the quantum as well, an accepted
  \<open>operator+=\<close> keeps the offset within the capacity.
\<close>

lemma getAlignedSize_dvd:
  assumes a: "getAlignedSize c n = Inr a"
    and q: "unat (alignment c) dvd 2 ^ 32"
  shows "unat (alignment c) dvd unat a"
proof -
  from a obtain K where "a = K * alignment c"
    by (auto simp: getAlignedSize_def Let_def split: if_splits)
  then have "unat a = (unat K * unat (alignment c)) mod 2 ^ 32"
    by (simp add: unat_word_ariths)
  moreover have "unat (alignment c) dvd (unat K * unat (alignment c)) mod 2 ^ 32"
    using q by (intro dvd_mod) simp_all
  ultimately show ?thesis by simp
qed

lemma dvd_2_64: "q dvd (2::nat) ^ 32 \<Longrightarrow> q dvd 2 ^ 64"
proof -
  assume "q dvd (2::nat) ^ 32"
  moreover have "(2::nat) ^ 32 dvd 2 ^ 64" by (rule le_imp_power_dvd) simp
  ultimately show ?thesis by (rule dvd_trans)
qed

lemma unat_add_dvd:
  fixes x y :: size_t
  assumes "q dvd unat x" "q dvd unat y" "q dvd 2 ^ 32"
  shows "q dvd unat (x + y)"
proof -
  have "unat (x + y) = (unat x + unat y) mod 2 ^ 64"
    by (simp add: unat_word_ariths)
  moreover have "q dvd (unat x + unat y) mod 2 ^ 64"
    using assms dvd_2_64 by (intro dvd_mod) simp_all
  ultimately show ?thesis by simp
qed

lemma unat_sub_dvd:
  fixes x y :: size_t
  assumes "q dvd unat x" "q dvd unat y" "q dvd 2 ^ 32"
  shows "q dvd unat (x - y)"
proof -
  have y: "unat y \<le> 2 ^ 64" using unsigned_less[of y, where ?'a = nat] by simp
  have "q dvd unat x + 2 ^ 64 - unat y"
    using assms dvd_2_64[OF assms(3)] y by (simp add: dvd_diff_nat)
  moreover have "q dvd unat x - unat y"
    using assms by (simp add: dvd_diff_nat)
  ultimately show ?thesis
    by (simp add: unat_sub_if_size word_size)
qed



lemma operator_sub_assign_Inr:
  assumes "operator_sub_assign c n = Inr c'"
  obtains a where "getAlignedSize c n = Inr a" "alignment c \<noteq> 0"
    "c' = c\<lparr>p_msg := p_msg c - ucast a, msg_size := msg_size c - ucast a\<rparr>"
    "\<not> msg_size c < n"
  using assms
  by (auto simp: operator_sub_assign_def getAlignedSize_def Let_def split: if_splits sum.splits)

lemma operator_add_assign_aligned:
  assumes ok: "operator_add_assign c n = Inr c'"
    and q: "unat (alignment c) dvd 2 ^ 32"
    and inv: "offset_aligned c"
  shows "offset_aligned c' \<and> alignment c' = alignment c"
proof -
  from ok obtain a where a: "getAlignedSize c n = Inr a" "alignment c \<noteq> 0"
    "c' = c\<lparr>p_msg := p_msg c + ucast a, msg_size := msg_size c + ucast a\<rparr>"
    by (rule operator_add_assign_Inr)
  have "unat (alignment c) dvd unat (ucast a :: size_t)"
    using getAlignedSize_dvd[OF a(1) q] by (simp add: unat_ucast_32_64)
  with inv q have "unat (alignment c) dvd unat (msg_size c + ucast a)"
    unfolding offset_aligned_def by (intro unat_add_dvd)
  with a(3) show ?thesis by (simp add: offset_aligned_def)
qed

lemma operator_sub_assign_aligned:
  assumes ok: "operator_sub_assign c n = Inr c'"
    and q: "unat (alignment c) dvd 2 ^ 32"
    and inv: "offset_aligned c"
  shows "offset_aligned c' \<and> alignment c' = alignment c"
proof -
  from ok obtain a where a: "getAlignedSize c n = Inr a" "alignment c \<noteq> 0"
    "c' = c\<lparr>p_msg := p_msg c - ucast a, msg_size := msg_size c - ucast a\<rparr>"
    by (rule operator_sub_assign_Inr)
  have "unat (alignment c) dvd unat (ucast a :: size_t)"
    using getAlignedSize_dvd[OF a(1) q] by (simp add: unat_ucast_32_64)
  with inv q have "unat (alignment c) dvd unat (msg_size c - ucast a)"
    unfolding offset_aligned_def by (intro unat_sub_dvd)
  with a(3) show ?thesis by (simp add: offset_aligned_def)
qed

lemma std_copy_aligned [simp]:
  "offset_aligned (std_copy src dst c) = offset_aligned c"
  "alignment (std_copy src dst c) = alignment c"
  by (simp_all add: offset_aligned_def std_copy_def)

lemma put_trivial_aligned_offset:
  assumes "put_trivial szT c t = Inr (r, c')"
    and q: "unat (alignment c) dvd 2 ^ 32" and inv: "offset_aligned c"
  shows "offset_aligned c' \<and> alignment c' = alignment c"
proof (cases r)
  case False
  with assms(1) have "c' = c" by (simp add: put_trivial_False)
  with inv show ?thesis by simp
next
  case True
  with assms(1) obtain c1 where
    "operator_add_assign (std_copy (take (unat szT) t) (buffer c) c) szT = Inr c'"
    by (auto simp: put_trivial_def Let_def split: if_splits sum.splits)
  from operator_add_assign_aligned[OF this] q inv show ?thesis by simp
qed

lemma put_int_len_aligned_offset:
  assumes "put_int_len c chars k = Inr (r, c')"
    and q: "unat (alignment c) dvd 2 ^ 32" and inv: "offset_aligned c"
  shows "offset_aligned c' \<and> alignment c' = alignment c"
proof (cases r)
  case False
  with assms(1) have "c' = c" by (simp add: put_int_len_False)
  with inv show ?thesis by simp
next
  case True
  with assms(1) have
    "operator_add_assign (std_copy (take (unat k) chars) (buffer c) c) (scast k) = Inr c'"
    by (auto simp: put_int_len_def Let_def split: if_splits sum.splits)
  from operator_add_assign_aligned[OF this] q inv show ?thesis by simp
qed

lemma put_ptr_aligned_offset:
  assumes "put_ptr szT c ptr n = Inr (r, c')"
    and q: "unat (alignment c) dvd 2 ^ 32" and inv: "offset_aligned c"
  shows "offset_aligned c' \<and> alignment c' = alignment c"
proof (cases r)
  case False
  with assms(1) have "c' = c" by (simp add: put_ptr_False)
  with inv show ?thesis by simp
next
  case True
  with assms(1) obtain bs r1 c1 where
    c1: "put_size_t c n = Inr (r1, c1)"
    and c': "operator_add_assign (std_copy (take (unat (szT * n)) bs) (buffer c1) c1) (szT * n)
              = Inr c'"
    by (auto simp: put_ptr_def Let_def split: if_splits sum.splits option.splits prod.splits)
  from c1 have 1: "offset_aligned c1 \<and> alignment c1 = alignment c"
    unfolding put_size_t_def using q inv by (rule put_trivial_aligned_offset)
  from operator_add_assign_aligned[OF c'] q 1 show ?thesis by simp
qed

lemma step_aligned_offset:
  assumes "step pb x = Inr pb'"
    and q: "unat (alignment (ctx pb)) dvd 2 ^ 32" and inv: "offset_aligned (ctx pb)"
  shows "offset_aligned (ctx pb') \<and> alignment (ctx pb') = alignment (ctx pb)"
proof (cases x)
  case (Put_trivial szT t)
  with assms(1) obtain r c' where "put_trivial szT (ctx pb) t = Inr (r, c')" "pb' = pb\<lparr>ctx := c'\<rparr>"
    by (auto simp: drop_result_def PackBuffer_put_def on_ctx_def Delegate_trivial_def
        split: sum.splits prod.splits)
  with put_trivial_aligned_offset[OF this(1) q inv] show ?thesis by simp
next
  case (Put_chars str)
  with assms(1) obtain r c' where c': "put_cstr (ctx pb) str = Inr (r, c')" "pb' = pb\<lparr>ctx := c'\<rparr>"
    by (auto simp: drop_result_def PackBuffer_put_chars_def on_ctx_def
        split: sum.splits prod.splits)
  show ?thesis
  proof (cases str)
    case None
    with c' inv show ?thesis by (simp add: put_cstr_def)
  next
    case (Some s)
    with c'(1) have "put_int_len (ctx pb) (s @ [0]) (ucast (getTypeSize_cstr s)) = Inr (r, c')"
      by (simp add: put_cstr_def)
    from put_int_len_aligned_offset[OF this q inv] c'(2) show ?thesis by simp
  qed
next
  case (Put_string s)
  with assms(1) obtain r c' where
    "put_int_len (ctx pb) (s @ [0]) (ucast (getTypeSize_string s)) = Inr (r, c')"
    "pb' = pb\<lparr>ctx := c'\<rparr>"
    by (auto simp: drop_result_def PackBuffer_put_def on_ctx_def Delegate_string_def
        put_string_def split: sum.splits prod.splits)
  with put_int_len_aligned_offset[OF this(1) q inv] show ?thesis by simp
next
  case (Put_ptr szT ptr n)
  with assms(1) obtain r c' where "put_ptr szT (ctx pb) ptr n = Inr (r, c')" "pb' = pb\<lparr>ctx := c'\<rparr>"
    by (auto simp: drop_result_def PackBuffer_put_ptr_def on_ctx_def
        split: sum.splits prod.splits)
  with put_ptr_aligned_offset[OF this(1) q inv] show ?thesis by simp
next
  case Reset
  with assms(1) obtain c' where
    "operator_sub_assign (ctx pb) (msg_size (ctx pb)) = Inr c'" "pb' = pb\<lparr>ctx := c'\<rparr>"
    by (auto simp: reset_def split: sum.splits)
  with operator_sub_assign_aligned[OF this(1) q inv] show ?thesis by simp
qed

lemma run_aligned_offset:
  assumes "run pb xs = Inr pb'"
    and "unat (alignment (ctx pb)) dvd 2 ^ 32" and "offset_aligned (ctx pb)"
  shows "offset_aligned (ctx pb') \<and> alignment (ctx pb') = alignment (ctx pb)"
  using assms
proof (induction xs arbitrary: pb)
  case Nil
  then show ?case by simp
next
  case (Cons x xs)
  from Cons.prems(1) obtain pb1 where 1: "step pb x = Inr pb1" and 2: "run pb1 xs = Inr pb'"
    by (auto split: sum.splits)
  from step_aligned_offset[OF 1 Cons.prems(2,3)]
  have s: "offset_aligned (ctx pb1)" "alignment (ctx pb1) = alignment (ctx pb)" by simp_all
  from Cons.IH[OF 2] s Cons.prems(2) show ?case by simp
qed

lemma offset_multiple_of_quantum:
  assumes "run (PackBuffer_init mem pMsg sz al) xs = Inr pb"
    and "unat al dvd 2 ^ 32"
  shows "unat al dvd unat (getDataSize pb)"
proof -
  have "offset_aligned (ctx (PackBuffer_init mem pMsg sz al))"
    by (simp add: offset_aligned_def PackBuffer_init_def Context_init_def)
  moreover have "alignment (ctx (PackBuffer_init mem pMsg sz al)) = al"
    by (simp add: PackBuffer_init_def Context_init_def)
  ultimately show ?thesis
    using run_aligned_offset[OF assms(1)] assms(2)
    by (auto simp add: offset_aligned_def getDataSize_def)
qed

lemma reset_returns_to_zero:
  assumes q: "alignment (ctx pb) \<noteq> 0"
    and inv: "offset_aligned (ctx pb)"
    and small: "unat (getDataSize pb) + unat (alignment (ctx pb)) \<le> 2 ^ 32"
  shows "map_sum id getDataSize (reset pb) = Inr 0"
proof -
  let ?c = "ctx pb"
  obtain a where a: "getAlignedSize ?c (msg_size ?c) = Inr a"
    using q by (simp add: getAlignedSize_def Let_def)
  have "unat a = ceil_div (unat (msg_size ?c)) (unat (alignment ?c)) * unat (alignment ?c)"
    using q small[unfolded getDataSize_def] a by (rule getAlignedSize_unat)
  also have "\<dots> = unat (msg_size ?c)"
  proof -
    have pos: "0 < unat (alignment ?c)" using q by (simp add: unat_gt_0)
    from inv have d: "unat (alignment ?c) dvd unat (msg_size ?c)"
      by (simp add: offset_aligned_def)
    then have "unat (msg_size ?c) mod unat (alignment ?c) = 0"
      by simp
    with d show ?thesis by (simp add: ceil_div_alt[OF pos] dvd_div_mult_self)
  qed
  finally have "unat (ucast a :: size_t) = unat (msg_size ?c)"
    by (simp add: unat_ucast_32_64)
  then have "(ucast a :: size_t) = msg_size ?c"
    by (simp only: word_unat_eq_iff)
  then show ?thesis
    using a by (simp add: reset_def operator_sub_assign_def getDataSize_def)
qed

lemma multiple_below:
  fixes a d q :: nat
  assumes "q dvd a" "q dvd d" "a < d + q"
  shows "a \<le> d"
proof -
  from assms(1) obtain i where i: "a = q * i" by (auto simp: dvd_def)
  from assms(2) obtain j where j: "d = q * j" by (auto simp: dvd_def)
  from assms(3) have "q * i < q * (j + 1)" by (simp add: i j)
  then have "i < j + 1" by (simp only: mult_less_cancel1)
  then have "i \<le> j" by simp
  then show ?thesis by (simp add: i j)
qed

lemma advance_within_capacity:
  assumes ok: "operator_add_assign c n = Inr c'"
    and bound: "unat n + unat (alignment c) \<le> 2 ^ 32"
    and cap: "unat (buf_size c) + 2 ^ 32 \<le> 2 ^ 64"
    and inside: "msg_size c \<le> buf_size c"
    and qm: "unat (alignment c) dvd unat (msg_size c)"
    and qb: "unat (alignment c) dvd unat (buf_size c)"
  shows "msg_size c' \<le> buf_size c'"
proof -
  let ?Q = "unat (alignment c)"
  let ?M = "unat (msg_size c)"
  let ?B = "unat (buf_size c)"
  let ?N = "unat n"
  from ok obtain a where a: "getAlignedSize c n = Inr a" "alignment c \<noteq> 0"
    "c' = c\<lparr>p_msg := p_msg c + ucast a, msg_size := msg_size c + ucast a\<rparr>"
    "\<not> buf_size c < msg_size c + n"
    by (rule operator_add_assign_Inr)
  have Qpos: "0 < ?Q" using a(2) by (simp add: unat_gt_0)
  have A: "unat a = ceil_div ?N ?Q * ?Q"
    using a(2) bound a(1) by (rule getAlignedSize_unat)
  have MB: "?M \<le> ?B" using inside by (simp add: word_le_nat_alt)
  have "?M + ?N < 2 ^ 64" using MB bound cap Qpos by simp
  then have "unat (msg_size c + n) = ?M + ?N" by (simp add: unat_add_lem[THEN iffD1])
  with a(4) have MN: "?M + ?N \<le> ?B" by (simp add: word_less_nat_alt)
  have r: "ceil_div ?N ?Q * ?Q < ?N + ?Q"
    using rounded_size_props[OF Qpos, of ?N] by simp
  have "unat a < (?B - ?M) + ?Q"
    using A r MN by linarith
  moreover have "?Q dvd unat a" using A by simp
  moreover have "?Q dvd ?B - ?M" using qm qb by (simp add: dvd_diff_nat)
  ultimately have "unat a \<le> ?B - ?M" by (intro multiple_below[of ?Q])
  with MB have le: "?M + unat a \<le> ?B" by linarith
  then have "?M + unat (ucast a :: size_t) < 2 ^ 64"
    using cap by (simp add: unat_ucast_32_64)
  then have "unat (msg_size c + ucast a) = ?M + unat a"
    by (simp add: unat_add_lem[THEN iffD1] unat_ucast_32_64)
  with le have "msg_size c + ucast a \<le> buf_size c" by (simp add: word_le_nat_alt)
  with a(3) show ?thesis by simp
qed

section \<open>Where the code leaves its contract\<close>

text \<open>
  C3. The claim is that \<open>advance\<close> rejects a request whenever the offset plus the
  \<^emph>\<open>aligned\<close> amount exceeds the capacity, so that the offset never passes the capacity.
  \<open>operator+=\<close> compares the \<^emph>\<open>requested\<close> size with the capacity and then adds the
  aligned one. On a buffer of capacity 6 with quantum 4 at offset 4, a request of 2 bytes
  is accepted and the offset becomes 8. The state is reached through the facade: after
  \<open>put\<close> of a 4-byte and of a 2-byte value \<open>getDataSize()\<close> is 8 and \<open>getBufferSize()\<close>,
  the unsigned difference \<open>6 - 8\<close>, is \<open>2 ^ 64 - 2\<close>; the next \<open>put\<close> of a 4-byte value
  passes its size check, copies past the buffer and ends in the exception.
\<close>

theorem advance_past_capacity:
  "operator_add_assign
     \<lparr>buf_size = 6, p_msg = 4, msg_size = 4, alignment = 4, memory = zero_memory\<rparr> 2
     = Inr \<lparr>buf_size = 6, p_msg = 8, msg_size = 8, alignment = 4, memory = zero_memory\<rparr> \<and>
   map_sum id getDataSize
     (run (PackBuffer_init zero_memory 0 6 4) [Put_trivial 4 [1, 0, 0, 0], Put_trivial 2 [2, 0]])
     = Inr 8 \<and>
   map_sum id getBufferSize
     (run (PackBuffer_init zero_memory 0 6 4) [Put_trivial 4 [1, 0, 0, 0], Put_trivial 2 [2, 0]])
     = Inr 18446744073709551614 \<and>
   map_sum id getDataSize
     (run (PackBuffer_init zero_memory 0 6 4)
        [Put_trivial 4 [1, 0, 0, 0], Put_trivial 2 [2, 0], Put_trivial 4 [3, 0, 0, 0]])
     = Inl out_of_range"
  by (simp add: Context_defs put_defs PackBuffer_defs drop_result_def)

text \<open>With room for the count and the elements, \<open>put\<close> of an array writes the count as
  an 8-byte length field and the elements after it: two 4-byte elements on an empty
  buffer of capacity 16.\<close>

lemma put_array_with_room:
  "bytesWrittenBy (Context_init zero_memory 0 16 4)
     (put_array buffer_size buffer 4 (Context_init zero_memory 0 16 4)
        [[1, 0, 0, 0], [2, 0, 0, 0]])
     = Inr (True, [2, 0, 0, 0, 0, 0, 0, 0, 1, 0, 0, 0, 2, 0, 0, 0])"
  by (simp add: Context_defs put_defs bytesWrittenBy_def put_array_def getTypeSize_array_def
      bytes_of_size_t_def upt_rec unsigned_minus_1_eq_mask mask_eq_exp_minus_1)

text \<open>
  C6. \<open>getTypeSize\<close> of an array is \<open>sizeof(T) * dataLen\<close>, without the length field
  that \<open>put\<close> writes in front of the elements (the pointer-and-length overload counts
  it). With \<open>size()\<close> and \<open>data()\<close> read as the remaining capacity and the write position:
  on a buffer of capacity 4, \<open>put\<close> of an array of one 4-byte element passes the size
  check, the inner \<open>put\<close> of the count finds no room and writes nothing, and \<open>put\<close>
  returns success with the four element bytes and no count in the buffer. On a buffer
  of capacity 8, \<open>put\<close> of an array of two 4-byte elements writes the count, copies the
  elements past the end of the buffer and ends in the exception of \<open>operator+=\<close>. The
  pointer-and-length overload computes 12 for one element and returns failure on the
  buffer of capacity 4.
\<close>

theorem put_array_drops_count:
  "getTypeSize_array 4 [[1, 0, 0, 0]] = 4 \<and>
   bytesWrittenBy (Context_init zero_memory 0 4 4)
     (put_array buffer_size buffer 4 (Context_init zero_memory 0 4 4) [[1, 0, 0, 0]])
     = Inr (True, [1, 0, 0, 0]) \<and>
   getTypeSize_array 4 [[1, 0, 0, 0], [2, 0, 0, 0]] = 8 \<and>
   put_array buffer_size buffer 4 (Context_init zero_memory 0 8 4) [[1, 0, 0, 0], [2, 0, 0, 0]]
     = Inl out_of_range \<and>
   getTypeSize_ptr 4 1 = 12 \<and>
   put_ptr 4 (Context_init zero_memory 0 4 4) (Some [1, 0, 0, 0]) 1
     = Inr (False, Context_init zero_memory 0 4 4)"
  by (simp add: Context_defs put_defs bytesWrittenBy_def put_array_def getTypeSize_array_def
      put_ptr_def getTypeSize_ptr_def bytes_of_size_t_def upt_rec)

text \<open>
  C9. \<open>reset()\<close> calls \<open>context_ -= context_.msg_size_\<close>, and \<open>operator-=\<close> subtracts
  \<open>getAlignedSize\<close> of its argument, a \<open>uint32_t\<close>. On a buffer of capacity \<open>2 ^ 32\<close>
  with quantum 4, two calls of \<open>put\<close> with a pointer to \<open>2 ^ 31 - 8\<close> bytes (each writes
  the 8-byte count and the bytes) leave \<open>getDataSize()\<close> at \<open>2 ^ 32\<close>, a multiple of the
  quantum; \<open>reset()\<close> then computes an aligned size of 0 and \<open>getDataSize()\<close> is still
  \<open>2 ^ 32\<close>.
\<close>

theorem reset_keeps_offset:
  "map_sum id getDataSize
     (run (PackBuffer_init zero_memory 0 4294967296 4)
        [Put_ptr 1 (Some (replicate 2147483640 0)) 2147483640,
         Put_ptr 1 (Some (replicate 2147483640 0)) 2147483640])
     = Inr 4294967296 \<and>
   map_sum id getDataSize
     (run (PackBuffer_init zero_memory 0 4294967296 4)
        [Put_ptr 1 (Some (replicate 2147483640 0)) 2147483640,
         Put_ptr 1 (Some (replicate 2147483640 0)) 2147483640,
         Reset])
     = Inr 4294967296"
  by (simp add: Context_defs put_defs PackBuffer_defs drop_result_def put_ptr_def
      getTypeSize_ptr_def)

text \<open>
  C10. The claim is that \<open>put\<close> of a null C-string pointer returns failure without
  writing. That holds of a null \<open>char *\<close> and of a null data pointer with a length. A
  C string held in a \<open>const char *\<close> is dispatched to the primary template: on an empty
  buffer of capacity 16 with quantum 4, over any memory \<open>m\<close>, \<open>put\<close> of a null
  \<open>const char *\<close> returns success, writes the eight zero bytes of the pointer and leaves
  \<open>getDataSize()\<close> at 8, where \<open>put\<close> of a null \<open>char *\<close> on the same buffer returns
  failure and leaves the buffer as it was.
\<close>

theorem put_null_const_char_pointer:
  "bytesWrittenBy (Context_init m 0 16 4)
     (put Delegate_const_char_ptr (Context_init m 0 16 4) null_pointer)
     = Inr (True, [0, 0, 0, 0, 0, 0, 0, 0]) \<and>
   map_sum id (map_prod id getDataSize)
     (PackBuffer_put Delegate_const_char_ptr (PackBuffer_init m 0 16 4) null_pointer)
     = Inr (True, 8) \<and>
   PackBuffer_put_chars (PackBuffer_init m 0 16 4) None
     = Inr (False, PackBuffer_init m 0 16 4)"
  by (simp add: Context_defs put_defs PackBuffer_defs bytesWrittenBy_def
      Delegate_const_char_ptr_def null_pointer_def upt_rec)

end
